theory Spec2Isabelle
  imports Main "HOL-Library.AList"
begin

section \<open>Handler registry (handler.go)\<close>

subsection \<open>Strings\<close>

text \<open>
  Go strings are byte sequences; they are modelled as \<open>string\<close> (a list of 8-bit
  characters). On a string of ASCII bytes \<open>strings.ToUpper\<close> maps the bytes
  \<open>a\<close> .. \<open>z\<close> to \<open>A\<close> .. \<open>Z\<close> and keeps every other byte. On any other string it
  maps every rune through the Unicode tables and replaces an invalid byte by the
  encoding of U+FFFD, which can change the length; that mapping belongs to the
  \<open>unicode\<close> package and is the argument \<open>unicodeUpper\<close>. The examples below use ASCII
  names and pass \<open>id\<close>, which is never consulted on them.
\<close>

definition upper_byte :: "char \<Rightarrow> char" where
  "upper_byte c =
     (let n = (of_char c :: nat) in if 97 \<le> n \<and> n \<le> 122 then char_of (n - 32) else c)"

definition isASCII :: "string \<Rightarrow> bool" where
  "isASCII s = list_all (\<lambda>c. (of_char c :: nat) < 128) s"

definition ToUpper :: "(string \<Rightarrow> string) \<Rightarrow> string \<Rightarrow> string" where
  "ToUpper unicodeUpper s = (if isASCII s then map upper_byte s else unicodeUpper s)"

text \<open>
  \<open>strings.IndexByte\<close>: the index of the first occurrence of the byte, \<open>-1\<close> when
  it does not occur.
\<close>

fun IndexByte :: "string \<Rightarrow> char \<Rightarrow> int" where
  "IndexByte [] c = -1"
| "IndexByte (x # xs) c =
     (if x = c then 0 else (let i = IndexByte xs c in if i < 0 then -1 else i + 1))"

subsection \<open>Composite identifiers\<close>

definition letterBytes :: string where
  "letterBytes = ''abcdefghijklmnopqrstuvwxyzABCDEFGHIJKLMNOPQRSTUVWXYZ''"

text \<open>
  \<open>cuid\<close> draws \<open>n\<close> values from \<open>rand.Int63\<close>; the draws of one call are the
  argument \<open>rnd\<close> (\<open>rnd i\<close> is the \<open>i\<close>-th draw, a non-negative number). The result is
  the pair of the composite token and the bare identifier.
\<close>

definition cuid :: "string \<Rightarrow> nat \<Rightarrow> (nat \<Rightarrow> nat) \<Rightarrow> string \<times> string" where
  "cuid cmd n rnd =
     (let b = map (\<lambda>i. letterBytes ! (rnd i mod length letterBytes)) [0..<n]
      in (cmd @ '':'' @ b, b))"

definition cuidToID :: "string \<Rightarrow> string \<times> string" where
  "cuidToID input =
     (let i = IndexByte input (CHR 0x3A)
      in if i < 0 then ('''', '''') else (take (nat i) input, drop (nat i + 1) input))"

subsection \<open>The registry\<close>

text \<open>
  \<open>Caller\<close> holds two namespaces \<open>map[COMMAND][CUID]Handler\<close>. The outer Go map is
  a partial function; the inner map of one command is an association list with
  distinct keys, so that \<open>exec\<close> can range over it (Go leaves the order of that
  range unspecified; no statement below depends on it). The mutex \<open>mu\<close> only
  serialises the operations and the logger \<open>debug\<close> only prints: neither is part of
  the state. The wait group \<open>wg\<close> is shared by every \<open>exec\<close> of the registry; the
  state keeps its counter, the number of \<open>Done\<close> calls still missing.
\<close>

record 'h Caller =
  external :: "string \<rightharpoonup> (string \<times> 'h) list"
  internal :: "string \<rightharpoonup> (string \<times> 'h) list"
  wg :: nat

definition newCaller :: "'h Caller" where
  "newCaller = \<lparr>external = Map.empty, internal = Map.empty, wg = 0\<rparr>"

text \<open>The inner map of a command after \<open>if _, ok := m[cmd]; !ok { m[cmd] = map[string]Handler{} }\<close>.\<close>

definition handlers_of :: "(string \<rightharpoonup> (string \<times> 'h) list) \<Rightarrow> string \<Rightarrow> (string \<times> 'h) list" where
  "handlers_of m cmd = (case m cmd of None \<Rightarrow> [] | Some hs \<Rightarrow> hs)"

text \<open>\<open>register\<close> returns the composite token and the updated registry.\<close>

definition register ::
  "(string \<Rightarrow> string) \<Rightarrow> 'h Caller \<Rightarrow> bool \<Rightarrow> string \<Rightarrow> 'h \<Rightarrow> (nat \<Rightarrow> nat)
     \<Rightarrow> string \<times> 'h Caller" where
  "register unicodeUpper c intern cmd handler rnd =
     (let cmd = ToUpper unicodeUpper cmd;
          (token, uid) = cuid cmd 20 rnd
      in if intern
         then (token, c\<lparr>internal := (internal c)(cmd \<mapsto> AList.update uid handler (handlers_of (internal c) cmd))\<rparr>)
         else (token, c\<lparr>external := (external c)(cmd \<mapsto> AList.update uid handler (handlers_of (external c) cmd))\<rparr>))"

definition sregister ::
  "(string \<Rightarrow> string) \<Rightarrow> 'h Caller \<Rightarrow> bool \<Rightarrow> string \<Rightarrow> 'h \<Rightarrow> (nat \<Rightarrow> nat)
     \<Rightarrow> string \<times> 'h Caller" where
  "sregister unicodeUpper c intern cmd handler rnd = register unicodeUpper c intern cmd handler rnd"

definition AddHandler ::
  "(string \<Rightarrow> string) \<Rightarrow> 'h Caller \<Rightarrow> string \<Rightarrow> 'h \<Rightarrow> (nat \<Rightarrow> nat) \<Rightarrow> string \<times> 'h Caller" where
  "AddHandler unicodeUpper c cmd handler rnd = sregister unicodeUpper c False cmd handler rnd"

text \<open>\<open>remove\<close> returns \<open>success\<close> and the updated registry.\<close>

definition remove :: "'h Caller \<Rightarrow> string \<Rightarrow> bool \<times> 'h Caller" where
  "remove c token =
     (let (cmd, uid) = cuidToID token
      in if length cmd = 0 \<or> length uid = 0 then (False, c)
         else (case external c cmd of
                 None \<Rightarrow> (False, c)
               | Some hs \<Rightarrow>
                   (case map_of hs uid of
                      None \<Rightarrow> (False, c)
                    | Some h \<Rightarrow> (True, c\<lparr>external := (external c)(cmd \<mapsto> AList.delete uid hs)\<rparr>))))"

definition Remove :: "'h Caller \<Rightarrow> string \<Rightarrow> bool \<times> 'h Caller" where
  "Remove c token = remove c token"

text \<open>The handler stored under \<open>(cmd, uid)\<close> in a namespace, if any.\<close>

definition entry :: "(string \<rightharpoonup> (string \<times> 'h) list) \<Rightarrow> string \<Rightarrow> string \<Rightarrow> 'h option" where
  "entry m cmd uid = map_of (handlers_of m cmd) uid"

subsection \<open>Events, handlers and their execution\<close>

record Event =
  Command :: string
  Params :: "string list"
  Trailing :: string
  Sensitive :: bool

text \<open>
  A handler is an opaque callable. What \<open>exec\<close> observes of one \<open>Execute\<close> call is
  whether it returns or panics. The effects of a handler on the client are not
  part of the handler's model; \<open>Connect\<close> below takes them as an argument.
\<close>

datatype outcome = Returned | Panicked

type_synonym Handler = "Event \<Rightarrow> outcome"

text \<open>
  The \<open>HandlerFunc\<close> that \<open>AddTmp\<close> stores starts a goroutine and returns at once. The
  goroutine runs the supplied handler and, when that returns true, calls \<open>Remove\<close>
  and closes \<open>done\<close> if the removal succeeded; a second goroutine does the same after
  the deadline when \<open>deadline > 0\<close> (see \<open>fire\<close> below).
\<close>

definition tmp_wrapper :: Handler where
  "tmp_wrapper ev = Returned"

definition AddTmp :: "Handler Caller \<Rightarrow> string \<Rightarrow> (nat \<Rightarrow> nat) \<Rightarrow> string \<times> Handler Caller" where
  "AddTmp c cmd rnd =
     (let (token, uid) = cuid cmd 20 rnd
      in (token, c\<lparr>external := (external c)(cmd \<mapsto> AList.update uid tmp_wrapper (handlers_of (external c) cmd))\<rparr>))"

text \<open>The stack that \<open>exec\<close> builds: internal handlers first, then external ones.\<close>

definition exec_stack :: "'h Caller \<Rightarrow> string \<Rightarrow> (string \<times> 'h) list" where
  "exec_stack c command = handlers_of (internal c) command @ handlers_of (external c) command"

text \<open>The entries of the stack whose handler panics on the event.\<close>

definition panicked :: "Handler Caller \<Rightarrow> string \<Rightarrow> Event \<Rightarrow> (string \<times> Handler) list" where
  "panicked c command event = filter (\<lambda>(uid, h). h event = Panicked) (exec_stack c command)"

text \<open>
  \<open>exec\<close> adds the length of the stack to the wait group, runs every handler of the
  stack in a goroutine of its own and waits for the counter to reach zero.
  \<open>wg.Done\<close> is called after \<open>Execute\<close> returns and is not deferred. A handler that
  panics ends the process when no \<open>Config.RecoverFunc\<close> is set. With a
  \<open>RecoverFunc\<close> the panic is recovered, but the goroutine never reaches
  \<open>wg.Done\<close>: the counter stays above zero, and \<open>wg.Wait\<close> returns neither in this
  \<open>exec\<close> nor in any later one of the same registry. The result is how the call
  ended and the registry with the counter it leaves.
\<close>

datatype exec_result = Completed | Hung | Crashed

definition exec :: "Handler Caller \<Rightarrow> bool \<Rightarrow> string \<Rightarrow> Event \<Rightarrow> exec_result \<times> Handler Caller" where
  "exec c recoverFunc command event =
     (let missing = length (panicked c command event)
      in if missing > 0 \<and> \<not> recoverFunc then (Crashed, c)
         else (let c = c\<lparr>wg := wg c + missing\<rparr>
               in if wg c = 0 then (Completed, c) else (Hung, c)))"

subsection \<open>Temporary handlers\<close>

text \<open>
  The \<open>done\<close> channel of one \<open>AddTmp\<close> call is tracked by the number of
  \<open>close(done)\<close> calls made so far (a second close of a Go channel panics).
  Three things can call \<open>Remove\<close> with the token of the temporary handler: the
  goroutine of a dispatched event, when the supplied handler returns true; the
  deadline goroutine, which exists only when \<open>deadline > 0\<close>; and the user. The
  first two close \<open>done\<close> when their \<open>Remove\<close> succeeded; \<open>Remove\<close> itself never
  touches \<open>done\<close>. Each \<open>Remove\<close> call runs under the registry's mutex, so the
  goroutines interleave at the granularity of these steps.
\<close>

record 'h tmp_state =
  caller :: "'h Caller"
  closes :: nat

datatype trigger = Dispatched Event | DeadlineFired | ExplicitRemove

definition remove_and_close :: "string \<Rightarrow> 'h tmp_state \<Rightarrow> 'h tmp_state" where
  "remove_and_close token s =
     (let (ok, c') = Remove (caller s) token
      in if ok then \<lparr>caller = c', closes = closes s + 1\<rparr> else \<lparr>caller = c', closes = closes s\<rparr>)"

fun fire :: "(Event \<Rightarrow> bool) \<Rightarrow> int \<Rightarrow> string \<Rightarrow> trigger \<Rightarrow> 'h tmp_state \<Rightarrow> 'h tmp_state" where
  "fire handler deadline token (Dispatched ev) s =
     (if handler ev then remove_and_close token s else s)"
| "fire handler deadline token DeadlineFired s =
     (if deadline > 0 then remove_and_close token s else s)"
| "fire handler deadline token ExplicitRemove s =
     \<lparr>caller = snd (Remove (caller s) token), closes = closes s\<rparr>"

fun run_triggers ::
  "(Event \<Rightarrow> bool) \<Rightarrow> int \<Rightarrow> string \<Rightarrow> trigger list \<Rightarrow> 'h tmp_state \<Rightarrow> 'h tmp_state" where
  "run_triggers handler deadline token [] s = s"
| "run_triggers handler deadline token (t # ts) s =
     run_triggers handler deadline token ts (fire handler deadline token t s)"

text \<open>Whether a trigger calls \<open>Remove\<close> at all.\<close>

fun calls_Remove :: "(Event \<Rightarrow> bool) \<Rightarrow> int \<Rightarrow> trigger \<Rightarrow> bool" where
  "calls_Remove handler deadline (Dispatched ev) = handler ev"
| "calls_Remove handler deadline DeadlineFired = (deadline > 0)"
| "calls_Remove handler deadline ExplicitRemove = True"

text \<open>A temporary handler that asks for its removal on every event, for examples.\<close>

definition remove_me :: "Event \<Rightarrow> bool" where
  "remove_me ev = True"



section \<open>Connection and supervisory loops\<close>

subsection \<open>Durations and instants\<close>

text \<open>
  \<open>time.Duration\<close> is an \<open>int64\<close> count of nanoseconds: it is modelled as an \<open>int\<close>
  and every arithmetic operation of the source is followed by \<open>wrap64\<close>, the
  two's complement wrap-around. Go's \<open>/\<close> truncates towards zero (\<open>tdiv\<close>).
\<close>

type_synonym Duration = int

definition wrap64 :: "int \<Rightarrow> int" where
  "wrap64 x = (x + 2 ^ 63) mod 2 ^ 64 - 2 ^ 63"


definition Second :: Duration where
  "Second = 1000000000"

definition maxDuration :: Duration where
  "maxDuration = 2 ^ 63 - 1"

definition minDuration :: Duration where
  "minDuration = - (2 ^ 63)"

text \<open>
  An instant (\<open>time.Time\<close>) is a number of nanoseconds on an unbounded axis.
  \<open>t.Sub(u)\<close> is the difference, saturated at the largest and the smallest
  duration as the \<open>time\<close> package documents; \<open>time.Since(u)\<close> is
  \<open>time.Now().Sub(u)\<close>.
\<close>

type_synonym Time = int

definition Sub :: "Time \<Rightarrow> Time \<Rightarrow> Duration" where
  "Sub t u =
     (if t - u > maxDuration then maxDuration
      else if t - u < minDuration then minDuration
      else t - u)"

subsection \<open>The connection\<close>

text \<open>
  The fields of \<open>ircConn\<close> that the loops read and write. Of the mutex \<open>mu\<close> the
  state keeps \<open>rlocks\<close>, the number of read locks that the keepalive goroutine
  itself holds: a \<open>sync.RWMutex\<close> is neither reentrant nor upgradable, so a call
  of \<open>Lock\<close> by a goroutine that holds a read lock waits for a release that only
  that goroutine could make.
\<close>

record ircConn =
  lastWrite :: Time
  writeDelay :: Duration
  lastPing :: Time
  lastPong :: Time
  rlocks :: nat

subsection \<open>Rate limiting\<close>





subsection \<open>Errors and decoding\<close>

datatype error = IOError string | ParseError | ErrTimedOut | ConnectError string

text \<open>
  \<open>decode\<close> reads one line and parses it. The result of \<open>ReadString\<close> and the
  parser \<open>ParseEvent\<close> of the codec are arguments. As in Go the result is the pair
  of the event and the error, one of them nil.
\<close>

definition decode :: "(string \<Rightarrow> Event option) \<Rightarrow> error + string \<Rightarrow> Event option \<times> error option" where
  "decode ParseEvent rd =
     (case rd of
        Inl err \<Rightarrow> (None, Some err)
      | Inr line \<Rightarrow>
          (case ParseEvent line of
             None \<Rightarrow> (None, Some ParseError)
           | Some event \<Rightarrow> (Some event, None)))"

subsection \<open>The read loop\<close>

text \<open>
  The loop is run against a script of its environment: for every iteration, whether
  \<open>done\<close> is ready and what \<open>ReadString\<close> returns. The result is the sequence of
  channel sends and whether the loop has returned when the script ends.
\<close>

datatype chan_op = SendErrs error | SendRx "Event option" | SendPing int

fun readLoop ::
  "(string \<Rightarrow> Event option) \<Rightarrow> (bool \<times> (error + string)) list \<Rightarrow> chan_op list \<times> bool" where
  "readLoop ParseEvent [] = ([], False)"
| "readLoop ParseEvent ((done, rd) # script) =
     (if done then ([], True)
      else (let (event, err) = decode ParseEvent rd;
                ops = (case err of Some e \<Rightarrow> [SendErrs e] | None \<Rightarrow> []) @ [SendRx event];
                (ops', returned) = readLoop ParseEvent script
            in (ops @ ops', returned)))"

subsection \<open>The keepalive loop\<close>

text \<open>
  One tick of \<open>pingLoop\<close>, with the configured \<open>PingDelay\<close> and the three readings
  of \<open>time.Now()\<close> that the tick takes (for \<open>time.Since\<close>, for \<open>lastPing\<close> and for
  the nonce). \<open>Commands.Ping\<close> is recorded as the send of a ping with the nonce.
\<close>

datatype tick_result = Exited | Continues | Blocked

definition pingTick ::
  "Duration \<Rightarrow> Time \<Rightarrow> Time \<Rightarrow> Time \<Rightarrow> ircConn \<Rightarrow> chan_op list \<times> tick_result \<times> ircConn" where
  "pingTick PingDelay now1 now2 now3 c =
     (let c = c\<lparr>rlocks := rlocks c + 1\<rparr>
      in if Sub now1 (lastPong c) > wrap64 (PingDelay + wrap64 (60 * Second))
         then ([SendErrs ErrTimedOut], Exited, c\<lparr>rlocks := 0\<rparr>)
         else if rlocks c = 0
              then ([SendPing now3], Continues, c\<lparr>lastPing := now2\<rparr>)
              else ([], Blocked, c))"

text \<open>The connection after the first lines of \<open>pingLoop\<close>.\<close>

definition pingLoop_init :: "Time \<Rightarrow> Time \<Rightarrow> ircConn \<Rightarrow> ircConn" where
  "pingLoop_init now1 now2 c = c\<lparr>lastPing := now1, lastPong := now2\<rparr>"

subsection \<open>Dispatch\<close>

text \<open>
  The client: its configuration, its handler registry and the events handed to the
  outbound queue \<open>tx\<close> so far. The command constants are declared in another file
  of the package and are taken as a record of names.
\<close>

record Config =
  Password :: string
  Nick :: string
  User :: string
  Name :: string
  RecoverFunc :: bool

record Client =
  Config :: Config
  Handlers :: "Handler Caller"
  tx :: "Event list"

record Commands =
  ALLEVENTS :: string
  INITIALIZED :: string
  PASS :: string
  NICK :: string
  USER :: string

text \<open>
  \<open>RunHandlers\<close> returns the delivery steps it started, in order, how it ended, and
  the client with the registry as the steps leave it. \<open>decodeCTCP\<close> of the codec is
  an argument; \<open>CTCP.call\<close> is recorded as a step. Logging is left out.
\<close>

datatype 'c dispatch = Exec string Event | CallCTCP 'c

definition RunHandlers ::
  "Commands \<Rightarrow> (Event \<Rightarrow> 'c option) \<Rightarrow> Client \<Rightarrow> Event option
     \<Rightarrow> 'c dispatch list \<times> exec_result \<times> Client" where
  "RunHandlers K decodeCTCP c event =
     (case event of
        None \<Rightarrow> ([], Completed, c)
      | Some ev \<Rightarrow>
          (let (r1, h1) = exec (Handlers c) (RecoverFunc (Config c)) (ALLEVENTS K) ev;
               c = c\<lparr>Handlers := h1\<rparr>
           in case r1 of
                Hung \<Rightarrow> ([Exec (ALLEVENTS K) ev], Hung, c)
              | Crashed \<Rightarrow> ([Exec (ALLEVENTS K) ev], Crashed, c)
              | Completed \<Rightarrow>
                  (let (r2, h2) = exec (Handlers c) (RecoverFunc (Config c)) (Command ev) ev;
                       c = c\<lparr>Handlers := h2\<rparr>
                   in case r2 of
                        Hung \<Rightarrow> ([Exec (ALLEVENTS K) ev, Exec (Command ev) ev], Hung, c)
                      | Crashed \<Rightarrow> ([Exec (ALLEVENTS K) ev, Exec (Command ev) ev], Crashed, c)
                      | Completed \<Rightarrow>
                          (case decodeCTCP ev of
                             None \<Rightarrow> ([Exec (ALLEVENTS K) ev, Exec (Command ev) ev], Completed, c)
                           | Some ctcp \<Rightarrow>
                               ([Exec (ALLEVENTS K) ev, Exec (Command ev) ev, CallCTCP ctcp],
                                Completed, c)))))"

text \<open>A CTCP decoder that never recognises an event, for examples.\<close>

definition no_ctcp :: "Event \<Rightarrow> unit option" where
  "no_ctcp ev = None"

subsection \<open>Connect\<close>

definition write_ev :: "Client \<Rightarrow> Event \<Rightarrow> Client" where
  "write_ev c event = c\<lparr>tx := tx c @ [event]\<rparr>"

text \<open>
  Modelled from the spec: \<open>listCAP\<close> is defined in another file of the package; the
  specification says that the handshake ends with a capability negotiation request
  sent as an outbound message. The request itself is an argument.
\<close>

definition listCAP :: "Event \<Rightarrow> Client \<Rightarrow> Client" where
  "listCAP capRequest c = write_ev c capRequest"

text \<open>
  \<open>Connect\<close> with the result of \<open>newConn\<close>, the server name and the first error that
  the loops deliver on \<open>errs\<close>, if any. The result is the client and how the call
  ended: it returned an error, it never returns, or the process ended. Handlers
  receive the client and may write its configuration: what the handlers of the
  \<open>INITIALIZED\<close> event do to it is the argument \<open>effect\<close>. The reset of the client's
  state, the stored connection and the start of the four loops are left out, and
  every send on \<open>tx\<close> is taken to be received.
\<close>

datatype connect_result = ReturnedError error | NeverReturns | ProcessEnded

definition Connect ::
  "Commands \<Rightarrow> (Event \<Rightarrow> 'c option) \<Rightarrow> (Config \<Rightarrow> Config) \<Rightarrow> Event \<Rightarrow> string \<Rightarrow> error + unit
     \<Rightarrow> error option \<Rightarrow> Client \<Rightarrow> Client \<times> connect_result" where
  "Connect K decodeCTCP effect capRequest server newConn errs c =
     (case newConn of
        Inl err \<Rightarrow> (c, ReturnedError err)
      | Inr conn \<Rightarrow>
          (let (steps, r, c) = RunHandlers K decodeCTCP c
                  (Some \<lparr>Command = INITIALIZED K, Params = [], Trailing = server, Sensitive = False\<rparr>)
           in case r of
                Hung \<Rightarrow> (c, NeverReturns)
              | Crashed \<Rightarrow> (c, ProcessEnded)
              | Completed \<Rightarrow>
                  (let c = c\<lparr>Config := effect (Config c)\<rparr>;
                       c = (if Password (Config c) \<noteq> ''''
                            then write_ev c \<lparr>Command = PASS K, Params = [Password (Config c)],
                                              Trailing = '''', Sensitive = False\<rparr>
                            else c);
                       c = write_ev c \<lparr>Command = NICK K, Params = [Nick (Config c)],
                                         Trailing = '''', Sensitive = False\<rparr>;
                       c = (if Name (Config c) = ''''
                            then c\<lparr>Config := (Config c)\<lparr>Name := User (Config c)\<rparr>\<rparr>
                            else c);
                       c = write_ev c \<lparr>Command = USER K, Params = [User (Config c), ''+iw'', ''*''],
                                         Trailing = Name (Config c), Sensitive = False\<rparr>;
                       c = listCAP capRequest c
                   in (c, (case errs of None \<Rightarrow> NeverReturns | Some err \<Rightarrow> ReturnedError err)))))"

section \<open>Properties of the handler registry\<close>

lemma IndexByte_absent: "c \<notin> set xs \<Longrightarrow> IndexByte xs c = -1"
  by (induction xs) auto

lemma IndexByte_first: "c \<notin> set xs \<Longrightarrow> IndexByte (xs @ c # ys) c = int (length xs)"
  by (induction xs) (auto simp: Let_def)

lemma cuidToID_join: "CHR '':'' \<notin> set cmd \<Longrightarrow> cuidToID (cmd @ CHR '':'' # uid) = (cmd, uid)"
  by (simp add: cuidToID_def IndexByte_first)

lemma cuid_fst: "fst (cuid cmd n rnd) = cmd @ CHR '':'' # snd (cuid cmd n rnd)"
  by (simp add: cuid_def Let_def)

lemma cuid_length: "length (snd (cuid cmd n rnd)) = n"
  by (simp add: cuid_def Let_def)

lemma cuid_letters: "set (snd (cuid cmd n rnd)) \<subseteq> set letterBytes"
proof -
  have "rnd i mod length letterBytes < length letterBytes" for i
    by (simp add: letterBytes_def)
  then show ?thesis
    by (auto simp: cuid_def Let_def)
qed

lemma upper_byte_colon: "upper_byte c = CHR '':'' \<longleftrightarrow> c = CHR '':''"
proof (cases "97 \<le> (of_char c :: nat) \<and> (of_char c :: nat) \<le> 122")
  case True
  then have "(of_char c - 32 :: nat) < 256"
    by arith
  then have "(of_char (char_of (of_char c - 32 :: nat)) :: nat) = of_char c - 32"
    by simp
  with True have "(of_char (upper_byte c) :: nat) \<noteq> 58" and "(of_char c :: nat) \<noteq> 58"
    by (auto simp: upper_byte_def Let_def)
  then show ?thesis by auto
next
  case False
  then show ?thesis by (auto simp: upper_byte_def Let_def)
qed

lemma ToUpper_ascii: "isASCII s \<Longrightarrow> ToUpper U s = map upper_byte s"
  by (simp add: ToUpper_def)

lemma ToUpper_colon: "isASCII s \<Longrightarrow> CHR '':'' \<in> set (ToUpper U s) \<longleftrightarrow> CHR '':'' \<in> set s"
proof -
  have "CHR '':'' = upper_byte x \<longleftrightarrow> x = CHR '':''" for x
    using upper_byte_colon [of x] by auto
  then show "isASCII s \<Longrightarrow> ?thesis"
    by (auto simp: ToUpper_ascii image_iff)
qed

lemma ToUpper_Nil: "isASCII s \<Longrightarrow> ToUpper U s = [] \<longleftrightarrow> s = []"
  by (simp add: ToUpper_ascii)

lemma remove_absent:
  "cuidToID token = (cmd, uid) \<Longrightarrow> entry (external c) cmd uid = None \<Longrightarrow> remove c token = (False, c)"
  by (auto simp: remove_def entry_def handlers_of_def split: option.splits)

lemma remove_present:
  "cuidToID token = (cmd, uid) \<Longrightarrow> cmd \<noteq> [] \<Longrightarrow> uid \<noteq> [] \<Longrightarrow> entry (external c) cmd uid = Some h \<Longrightarrow>
   remove c token =
     (True, c\<lparr>external := (external c)(cmd \<mapsto> AList.delete uid (handlers_of (external c) cmd))\<rparr>)"
  by (auto simp: remove_def entry_def handlers_of_def split: option.splits)

lemma remove_guard:
  "cuidToID token = (cmd, uid) \<Longrightarrow> cmd = [] \<or> uid = [] \<Longrightarrow> remove c token = (False, c)"
  by (auto simp: remove_def)

lemma entry_upd:
  "entry (m(cmd \<mapsto> hs)) k u = (if k = cmd then map_of hs u else entry m k u)"
  by (simp add: entry_def handlers_of_def)

lemma register_external:
  "register U c False cmd h rnd =
     (fst (cuid (ToUpper U cmd) 20 rnd),
      c\<lparr>external := (external c)(ToUpper U cmd \<mapsto>
           AList.update (snd (cuid (ToUpper U cmd) 20 rnd)) h (handlers_of (external c) (ToUpper U cmd)))\<rparr>)"
  by (simp add: register_def Let_def split_def)

lemma register_internal:
  "register U c True cmd h rnd =
     (fst (cuid (ToUpper U cmd) 20 rnd),
      c\<lparr>internal := (internal c)(ToUpper U cmd \<mapsto>
           AList.update (snd (cuid (ToUpper U cmd) 20 rnd)) h (handlers_of (internal c) (ToUpper U cmd)))\<rparr>)"
  by (simp add: register_def Let_def split_def)


text \<open>
  Claim C7, as amended. For every command name without the byte \<open>:\<close>, every length
  \<open>n\<close> and all random draws, \<open>cuidToID\<close> parses the token made by \<open>cuid\<close> back
  into exactly the command and the generated identifier; the identifier has length
  \<open>n\<close> and consists of the letters of \<open>letterBytes\<close>.
\<close>

theorem cuid_roundtrip:
  assumes "CHR '':'' \<notin> set cmd"
  shows "cuidToID (fst (cuid cmd n rnd)) = (cmd, snd (cuid cmd n rnd))
         \<and> length (snd (cuid cmd n rnd)) = n
         \<and> set (snd (cuid cmd n rnd)) \<subseteq> set letterBytes"
  using assms by (simp add: cuid_fst cuidToID_join cuid_length cuid_letters)

theorem cuid_roundtrip_witness:
  "CHR '':'' \<notin> set ''PRIVMSG'' \<and> cuidToID (fst (cuid ''PRIVMSG'' 3 Suc)) = (''PRIVMSG'', ''bcd'')"
proof -
  have h: "CHR '':'' \<notin> set ''PRIVMSG''" by simp
  have e: "snd (cuid ''PRIVMSG'' 3 Suc) = ''bcd''" by code_simp
  from cuid_roundtrip [OF h, of 3 Suc] e h show ?thesis by simp
qed

text \<open>
  Claim C7 as stated fails for a command name that contains \<open>:\<close>: the token of
  \<open>a:b\<close> with identifier \<open>bcd\<close> is parsed into the command \<open>a\<close> and the identifier
  \<open>b:bcd\<close>.
\<close>

theorem cuid_colon_counterexample:
  "cuidToID (fst (cuid ''a:b'' 3 Suc)) = (''a'', ''b:bcd'') \<and> snd (cuid ''a:b'' 3 Suc) = ''bcd''"
  by code_simp

text \<open>
  Claim C3, as amended. For every external registration whose command name, as
  uppercased by \<open>strings.ToUpper\<close>, is non-empty and without \<open>:\<close>, the first
  \<open>Remove\<close> with the returned token succeeds and deletes the handler stored by
  \<open>register\<close>, and the second \<open>Remove\<close> with the same token fails and changes
  nothing. For an ASCII name the condition is that the name itself is non-empty
  and without \<open>:\<close>.
\<close>

theorem register_Remove_once:
  assumes "ToUpper U cmd \<noteq> [] \<and> CHR '':'' \<notin> set (ToUpper U cmd)
           \<or> isASCII cmd \<and> cmd \<noteq> [] \<and> CHR '':'' \<notin> set cmd"
    and "register U c False cmd h rnd = (token, c1)"
    and "Remove c1 token = (ok1, c2)"
    and "Remove c2 token = (ok2, c3)"
  shows "ok1 \<and> \<not> ok2 \<and> c3 = c2
         \<and> entry (external c1) (ToUpper U cmd) (snd (cuid (ToUpper U cmd) 20 rnd)) = Some h
         \<and> entry (external c2) (ToUpper U cmd) (snd (cuid (ToUpper U cmd) 20 rnd)) = None"
proof -
  let ?C = "ToUpper U cmd" and ?u = "snd (cuid (ToUpper U cmd) 20 rnd)"
  have key: "?C \<noteq> []" "CHR '':'' \<notin> set ?C"
    using assms(1) by (auto simp: ToUpper_colon ToUpper_Nil)
  have tok: "token = fst (cuid ?C 20 rnd)"
    and c1: "c1 = c\<lparr>external := (external c)(?C \<mapsto> AList.update ?u h (handlers_of (external c) ?C))\<rparr>"
    using assms(2) by (simp_all add: register_external)
  have parse: "cuidToID token = (?C, ?u)"
    using key(2) unfolding tok by (simp add: cuid_fst cuidToID_join)
  have ne: "?C \<noteq> []" "?u \<noteq> []"
    using key(1) cuid_length [of ?C 20 rnd] by auto
  have e1: "entry (external c1) ?C ?u = Some h"
    by (simp add: c1 entry_upd update_conv')
  from remove_present [OF parse ne e1] assms(3)
  have ok1: ok1 and c2: "c2 = c1\<lparr>external := (external c1)(?C \<mapsto> AList.delete ?u (handlers_of (external c1) ?C))\<rparr>"
    by (simp_all add: Remove_def)
  have e2: "entry (external c2) ?C ?u = None"
    by (simp add: c2 entry_upd delete_conv')
  from remove_absent [OF parse e2] assms(4)
  have "\<not> ok2" and "c3 = c2" by (simp_all add: Remove_def)
  with ok1 e1 e2 show ?thesis by simp
qed

theorem register_Remove_once_witness:
  "fst (Remove (snd (register id newCaller False ''privmsg'' (0::nat) Suc))
               (fst (register id newCaller False ''privmsg'' (0::nat) Suc)))
   \<and> \<not> fst (Remove (snd (Remove (snd (register id newCaller False ''privmsg'' (0::nat) Suc))
                               (fst (register id newCaller False ''privmsg'' (0::nat) Suc))))
                  (fst (register id newCaller False ''privmsg'' (0::nat) Suc)))"
proof -
  have h: "ToUpper id ''privmsg'' \<noteq> [] \<and> CHR '':'' \<notin> set (ToUpper id ''privmsg'')
           \<or> isASCII ''privmsg'' \<and> ''privmsg'' \<noteq> [] \<and> CHR '':'' \<notin> set ''privmsg''"
    by (simp add: isASCII_def)
  from register_Remove_once [where U = id and cmd = "''privmsg''" and c = newCaller and h = "0::nat" and rnd = Suc,
      OF h surjective_pairing surjective_pairing surjective_pairing]
  show ?thesis by simp
qed

text \<open>
  Claim C3 as stated fails for a command name that contains \<open>:\<close>: the first
  \<open>Remove\<close> with the token returned for \<open>a:b\<close> already reports failure.
\<close>

theorem register_colon_counterexample:
  "fst (Remove (snd (register id newCaller False ''a:b'' (0::nat) Suc))
               (fst (register id newCaller False ''a:b'' (0::nat) Suc))) = False"
proof -
  have p: "cuidToID (fst (cuid (ToUpper id ''a:b'') 20 Suc)) = (''A'', ''B:bcdefghijklmnopqrstu'')"
    by code_simp
  have u: "ToUpper id ''a:b'' = ''A:B''" by code_simp
  have "entry (external (snd (register id newCaller False ''a:b'' (0::nat) Suc))) ''A'' ''B:bcdefghijklmnopqrstu'' = None"
    by (simp add: register_external u entry_upd) (simp add: entry_def handlers_of_def newCaller_def)
  from remove_absent [OF _ this] p show ?thesis
    by (simp add: Remove_def register_external)
qed

text \<open>
  Claim C6, as amended. Let the token parse into \<open>(cmd, uid)\<close>. \<open>Remove\<close> never
  changes the internal namespace; when it returns false the registry is unchanged;
  a token whose entry exists only in the internal namespace is refused; and when
  \<open>cmd\<close> and \<open>uid\<close> are both non-empty and the entry exists in the external
  namespace, \<open>Remove\<close> returns true and deletes exactly that entry: the commands of
  the external map stay the same and every other entry is unchanged.
\<close>

theorem Remove_frame:
  assumes "cuidToID token = (cmd, uid)" and "Remove c token = (ok, c')"
  shows "internal c' = internal c
       \<and> (\<not> ok \<longrightarrow> c' = c)
       \<and> (entry (internal c) cmd uid \<noteq> None \<and> entry (external c) cmd uid = None \<longrightarrow> \<not> ok \<and> c' = c)
       \<and> (cmd \<noteq> [] \<and> uid \<noteq> [] \<and> entry (external c) cmd uid \<noteq> None \<longrightarrow>
            ok \<and> dom (external c') = dom (external c)
            \<and> (\<forall>k u. entry (external c') k u =
                  (if k = cmd \<and> u = uid then None else entry (external c) k u)))"
proof (cases "cmd \<noteq> [] \<and> uid \<noteq> [] \<and> entry (external c) cmd uid \<noteq> None")
  case True
  then obtain h where h: "entry (external c) cmd uid = Some h" by auto
  from True have ex: "external c cmd = Some (handlers_of (external c) cmd)"
    by (auto simp: entry_def handlers_of_def split: option.splits)
  from remove_present [OF assms(1) _ _ h] True assms(2)
  have ok: ok and c': "c' = c\<lparr>external := (external c)(cmd \<mapsto> AList.delete uid (handlers_of (external c) cmd))\<rparr>"
    by (simp_all add: Remove_def)
  have "dom (external c') = dom (external c)"
    using ex by (auto simp: c')
  moreover have "entry (external c') k u = (if k = cmd \<and> u = uid then None else entry (external c) k u)" for k u
    by (simp add: c' entry_upd delete_conv') (simp add: entry_def)
  ultimately show ?thesis using ok h by (simp add: c')
next
  case False
  then consider "cmd = [] \<or> uid = []" | "entry (external c) cmd uid = None" by auto
  then have "remove c token = (False, c)"
    using assms(1) by cases (simp_all add: remove_guard remove_absent)
  with assms(2) False show ?thesis by (auto simp: Remove_def)
qed

theorem Remove_frame_witness:
  "fst (Remove (snd (register id newCaller False ''join'' (0::nat) Suc)) ''JOIN:bcdefghijklmnopqrstu'')
   \<and> internal (snd (Remove (snd (register id newCaller False ''join'' (0::nat) Suc)) ''JOIN:bcdefghijklmnopqrstu'')) = Map.empty
   \<and> \<not> fst (Remove (snd (register id newCaller True ''join'' (0::nat) Suc)) ''JOIN:bcdefghijklmnopqrstu'')
   \<and> snd (Remove (snd (register id newCaller True ''join'' (0::nat) Suc)) ''JOIN:bcdefghijklmnopqrstu'')
       = snd (register id newCaller True ''join'' (0::nat) Suc)"
proof -
  have p: "cuidToID ''JOIN:bcdefghijklmnopqrstu'' = (''JOIN'', ''bcdefghijklmnopqrstu'')"
    by code_simp
  have u: "ToUpper id ''join'' = ''JOIN''" and d: "snd (cuid ''JOIN'' 20 Suc) = ''bcdefghijklmnopqrstu''"
    by code_simp+
  have e: "entry (external (snd (register id newCaller False ''join'' (0::nat) Suc))) ''JOIN'' ''bcdefghijklmnopqrstu'' = Some 0"
    by (simp add: register_external u d entry_upd update_conv')
  have i: "entry (internal (snd (register id newCaller True ''join'' (0::nat) Suc))) ''JOIN'' ''bcdefghijklmnopqrstu'' = Some 0"
    and x: "entry (external (snd (register id newCaller True ''join'' (0::nat) Suc))) ''JOIN'' ''bcdefghijklmnopqrstu'' = None"
    by (simp_all add: register_internal u d entry_upd update_conv') (simp add: entry_def handlers_of_def newCaller_def)
  from Remove_frame [OF p surjective_pairing, of "snd (register id newCaller False ''join'' (0::nat) Suc)"] e
  have "fst (Remove (snd (register id newCaller False ''join'' (0::nat) Suc)) ''JOIN:bcdefghijklmnopqrstu'')
     \<and> internal (snd (Remove (snd (register id newCaller False ''join'' (0::nat) Suc)) ''JOIN:bcdefghijklmnopqrstu'')) = Map.empty"
    by (simp add: register_external newCaller_def)
  moreover from Remove_frame [OF p surjective_pairing, of "snd (register id newCaller True ''join'' (0::nat) Suc)"] i x
  have "\<not> fst (Remove (snd (register id newCaller True ''join'' (0::nat) Suc)) ''JOIN:bcdefghijklmnopqrstu'')
   \<and> snd (Remove (snd (register id newCaller True ''join'' (0::nat) Suc)) ''JOIN:bcdefghijklmnopqrstu'')
       = snd (register id newCaller True ''join'' (0::nat) Suc)"
    by simp
  ultimately show ?thesis by blast
qed

text \<open>
  Claim C6 as stated fails for the empty command name: the handler added for it is
  present in the external namespace under the pair its token parses into, yet
  \<open>Remove\<close> returns false and deletes nothing.
\<close>

theorem Remove_empty_command_counterexample:
  "cuidToID '':bcdefghijklmnopqrstu'' = ('''', ''bcdefghijklmnopqrstu'')
   \<and> entry (external (snd (AddHandler id newCaller '''' (0::nat) Suc))) '''' ''bcdefghijklmnopqrstu'' = Some 0
   \<and> Remove (snd (AddHandler id newCaller '''' (0::nat) Suc)) '':bcdefghijklmnopqrstu''
       = (False, snd (AddHandler id newCaller '''' (0::nat) Suc))"
proof -
  have p: "cuidToID '':bcdefghijklmnopqrstu'' = ('''', ''bcdefghijklmnopqrstu'')"
    by code_simp
  have u: "ToUpper id '''' = ''''" and d: "snd (cuid '''' 20 Suc) = ''bcdefghijklmnopqrstu''"
    by code_simp+
  have e: "entry (external (snd (AddHandler id newCaller '''' (0::nat) Suc))) '''' ''bcdefghijklmnopqrstu'' = Some 0"
    by (simp add: AddHandler_def sregister_def register_external u d entry_upd update_conv')
  from remove_guard [OF p] p e show ?thesis
    by (simp add: Remove_def)
qed


lemma register_stored_upper:
  "entry (if intern then internal (snd (register U c intern cmd h rnd))
          else external (snd (register U c intern cmd h rnd)))
     (ToUpper U cmd) (snd (cuid (ToUpper U cmd) 20 rnd)) = Some h"
  by (cases intern) (simp_all add: register_external register_internal entry_upd update_conv')

lemma AddTmp_external:
  "AddTmp c cmd rnd =
     (fst (cuid cmd 20 rnd),
      c\<lparr>external := (external c)(cmd \<mapsto>
           AList.update (snd (cuid cmd 20 rnd)) tmp_wrapper (handlers_of (external c) cmd))\<rparr>)"
  by (simp add: AddTmp_def Let_def split_def)

text \<open>
  Claim C4 at the input \<open>privmsg\<close>: \<open>AddTmp\<close> stores the handler under the name as
  given, so \<open>exec\<close> of the uppercase command finds nothing, while \<open>register\<close>
  stores it under \<open>PRIVMSG\<close>.
\<close>

theorem AddTmp_not_normalised:
  "exec_stack (snd (AddTmp newCaller ''privmsg'' Suc)) (ToUpper id ''privmsg'') = []
   \<and> exec_stack (snd (AddTmp newCaller ''privmsg'' Suc)) ''privmsg''
       = [(''bcdefghijklmnopqrstu'', tmp_wrapper)]
   \<and> map fst (exec_stack (snd (register id newCaller False ''privmsg'' tmp_wrapper Suc)) (ToUpper id ''privmsg''))
       = [''bcdefghijklmnopqrstu'']"
proof -
  have u: "ToUpper id ''privmsg'' = ''PRIVMSG''" and d: "snd (cuid ''privmsg'' 20 Suc) = ''bcdefghijklmnopqrstu''"
    and d': "snd (cuid ''PRIVMSG'' 20 Suc) = ''bcdefghijklmnopqrstu''"
    by code_simp+
  show ?thesis
    by (simp add: AddTmp_external u d d' register_external exec_stack_def handlers_of_def)
      (simp add: newCaller_def)
qed

lemma remove_and_close_absent:
  "cuidToID token = (cmd, uid) \<Longrightarrow> entry (external (caller s)) cmd uid = None \<Longrightarrow>
   remove_and_close token s = s"
  by (simp add: remove_and_close_def Remove_def remove_absent)

lemma fire_absent:
  "cuidToID token = (cmd, uid) \<Longrightarrow> entry (external (caller s)) cmd uid = None \<Longrightarrow>
   fire handler deadline token t s = s"
  by (cases t) (simp_all add: remove_and_close_absent Remove_def remove_absent)

lemma run_triggers_absent:
  "cuidToID token = (cmd, uid) \<Longrightarrow> entry (external (caller s)) cmd uid = None \<Longrightarrow>
   run_triggers handler deadline token ts s = s"
  by (induction ts) (simp_all add: fire_absent)

lemma fire_idle:
  "\<not> calls_Remove handler deadline t \<Longrightarrow> fire handler deadline token t s = s"
  by (cases t) simp_all

lemma fire_present:
  assumes "cuidToID token = (cmd, uid)" and "cmd \<noteq> []" and "uid \<noteq> []"
    and "entry (external (caller s)) cmd uid = Some h"
    and "calls_Remove handler deadline t"
  shows "closes (fire handler deadline token t s) = closes s + (if t = ExplicitRemove then 0 else 1)
       \<and> entry (external (caller (fire handler deadline token t s))) cmd uid = None"
  using assms(5) remove_present [OF assms(1-4)]
  by (cases t) (simp_all add: remove_and_close_def Remove_def entry_upd delete_conv')

lemma run_triggers_present:
  assumes "cuidToID token = (cmd, uid)" and "cmd \<noteq> []" and "uid \<noteq> []"
  shows "entry (external (caller s)) cmd uid = Some h \<Longrightarrow>
     closes (run_triggers handler deadline token ts s) =
       closes s + (case filter (calls_Remove handler deadline) ts of
                     [] \<Rightarrow> 0 | t # _ \<Rightarrow> if t = ExplicitRemove then 0 else 1)
     \<and> (entry (external (caller (run_triggers handler deadline token ts s))) cmd uid = None
          \<longleftrightarrow> filter (calls_Remove handler deadline) ts \<noteq> [])"
proof (induction ts arbitrary: s)
  case Nil
  then show ?case by simp
next
  case (Cons t ts)
  show ?case
  proof (cases "calls_Remove handler deadline t")
    case True
    from fire_present [OF assms Cons.prems True]
    have c: "closes (fire handler deadline token t s) = closes s + (if t = ExplicitRemove then 0 else 1)"
      and e: "entry (external (caller (fire handler deadline token t s))) cmd uid = None"
      by simp_all
    from run_triggers_absent [OF assms(1) e]
    have "run_triggers handler deadline token ts (fire handler deadline token t s)
            = fire handler deadline token t s" .
    with True c e show ?thesis by simp
  next
    case False
    with Cons.IH [OF Cons.prems] show ?thesis
      by (simp add: fire_idle)
  qed
qed

text \<open>
  Claim C5, as amended. After \<open>AddTmp\<close> of a non-empty command name without \<open>:\<close>,
  and for every sequence of triggers, \<open>done\<close> is closed at most once: it is closed
  exactly once when the first trigger that calls \<open>Remove\<close> is the handler's request
  or the deadline, and it is never closed when that first trigger is an explicit
  \<open>Remove\<close> or when no trigger calls \<open>Remove\<close>. The handler is gone as soon as one
  trigger has called \<open>Remove\<close>, and every later trigger changes nothing.
\<close>

theorem AddTmp_done_closed:
  assumes "cmd \<noteq> []" and "CHR '':'' \<notin> set cmd" and "AddTmp c cmd rnd = (token, c1)"
  shows "closes (run_triggers handler deadline token ts \<lparr>caller = c1, closes = 0\<rparr>) =
           (case filter (calls_Remove handler deadline) ts of
              [] \<Rightarrow> 0 | t # _ \<Rightarrow> if t = ExplicitRemove then 0 else 1)
       \<and> (entry (external (caller (run_triggers handler deadline token ts \<lparr>caller = c1, closes = 0\<rparr>)))
             cmd (snd (cuid cmd 20 rnd)) = None
            \<longleftrightarrow> filter (calls_Remove handler deadline) ts \<noteq> [])"
proof -
  let ?u = "snd (cuid cmd 20 rnd)"
  have tok: "token = fst (cuid cmd 20 rnd)"
    and c1: "c1 = c\<lparr>external := (external c)(cmd \<mapsto> AList.update ?u tmp_wrapper (handlers_of (external c) cmd))\<rparr>"
    using assms(3) by (simp_all add: AddTmp_external)
  have parse: "cuidToID token = (cmd, ?u)"
    using assms(2) unfolding tok by (simp add: cuid_fst cuidToID_join)
  have ne: "?u \<noteq> []"
    using cuid_length [of cmd 20 rnd] by auto
  have e: "entry (external (caller \<lparr>caller = c1, closes = 0\<rparr>)) cmd ?u = Some tmp_wrapper"
    by (simp add: c1 entry_upd update_conv')
  from run_triggers_present [OF parse assms(1) ne e, of handler deadline ts]
  show ?thesis by simp
qed

theorem AddTmp_done_closed_witness:
  "closes (run_triggers remove_me 5 (fst (AddTmp newCaller ''WHOIS'' Suc))
       [Dispatched \<lparr>Command = ''WHOIS'', Params = [], Trailing = '''', Sensitive = False\<rparr>,
        DeadlineFired, ExplicitRemove]
       \<lparr>caller = snd (AddTmp newCaller ''WHOIS'' Suc), closes = 0\<rparr>) = 1"
proof -
  have h1: "''WHOIS'' \<noteq> []" and h2: "CHR '':'' \<notin> set ''WHOIS''"
    by simp_all
  from AddTmp_done_closed [OF h1 h2 surjective_pairing,
      where c = newCaller and rnd = Suc and handler = remove_me and deadline = 5
        and ts = "[Dispatched \<lparr>Command = ''WHOIS'', Params = [], Trailing = '''', Sensitive = False\<rparr>,
          DeadlineFired, ExplicitRemove]"]
  show ?thesis by (simp add: remove_me_def)
qed

text \<open>
  Claim C5 as stated fails when the explicit \<open>Remove\<close> comes first: \<open>done\<close> is not
  closed then, nor by the deadline and the handler's request that follow.
\<close>

theorem explicit_Remove_counterexample:
  "closes (run_triggers remove_me 5 (fst (AddTmp newCaller ''WHOIS'' Suc))
       [ExplicitRemove, DeadlineFired,
        Dispatched \<lparr>Command = ''WHOIS'', Params = [], Trailing = '''', Sensitive = False\<rparr>]
       \<lparr>caller = snd (AddTmp newCaller ''WHOIS'' Suc), closes = 0\<rparr>) = 0"
proof -
  have parse: "cuidToID (fst (AddTmp newCaller ''WHOIS'' Suc)) = (''WHOIS'', snd (cuid ''WHOIS'' 20 Suc))"
    using cuidToID_join [of "''WHOIS''" "snd (cuid ''WHOIS'' 20 Suc)"]
    by (simp add: AddTmp_external cuid_fst)
  have ne: "snd (cuid ''WHOIS'' 20 Suc) \<noteq> []"
    using cuid_length [of "''WHOIS''" 20 Suc] by auto
  have e: "entry (external (caller \<lparr>caller = snd (AddTmp newCaller ''WHOIS'' Suc), closes = 0\<rparr>))
             ''WHOIS'' (snd (cuid ''WHOIS'' 20 Suc)) = Some tmp_wrapper"
    by (simp add: AddTmp_external entry_upd update_conv')
  from run_triggers_present [OF parse _ ne e, of remove_me 5
      "[ExplicitRemove, DeadlineFired,
        Dispatched \<lparr>Command = ''WHOIS'', Params = [], Trailing = '''', Sensitive = False\<rparr>]"]
  show ?thesis by simp
qed

section \<open>Properties of the rate limiter\<close>









section \<open>Properties of the loops and of dispatch\<close>

lemma decode_error: "decode ParseEvent (Inl err) = (None, Some err)"
  by (simp add: decode_def)

lemma readLoop_failed_decode:
  "decode ParseEvent rd = (None, Some err) \<Longrightarrow>
   readLoop ParseEvent ((False, rd) # script) =
     (SendErrs err # SendRx None # fst (readLoop ParseEvent script), snd (readLoop ParseEvent script))"
  by (simp add: split_def Let_def)

text \<open>
  Claim C2 at a failing read: the read loop sends the error on \<open>errs\<close>, then sends
  the nil event on the inbound queue and goes on to the next iteration, where it
  decodes again; it returns only when \<open>done\<close> is ready.
\<close>

theorem readLoop_continues_after_error:
  "readLoop ParseEvent
     [(False, Inl (IOError ''EOF'')), (False, Inl (IOError ''EOF'')), (True, Inl (IOError ''EOF''))]
   = ([SendErrs (IOError ''EOF''), SendRx None, SendErrs (IOError ''EOF''), SendRx None], True)"
  by (simp add: decode_def)

lemma pingTick_alive:
  "\<not> Sub now1 (lastPong c) > wrap64 (PingDelay + wrap64 (60 * Second)) \<Longrightarrow>
   pingTick PingDelay now1 now2 now3 c = ([], Blocked, c\<lparr>rlocks := rlocks c + 1\<rparr>)"
  by (simp add: pingTick_def Let_def)

lemma pingTick_timeout:
  "Sub now1 (lastPong c) > wrap64 (PingDelay + wrap64 (60 * Second)) \<Longrightarrow>
   pingTick PingDelay now1 now2 now3 c = ([SendErrs ErrTimedOut], Exited, c\<lparr>rlocks := 0\<rparr>)"
  by (simp add: pingTick_def Let_def)

text \<open>
  Claim C8 on a tick 30 seconds after the last pong with a ping delay of 20 seconds:
  no timeout has occurred, but the tick holds the read lock it took when it asks
  for the write lock, so it blocks: \<open>lastPing\<close> keeps its value and no ping is sent.
\<close>

theorem pingTick_deadlock:
  "pingTick (20 * Second) (30 * Second) (30 * Second) (30 * Second)
     (pingLoop_init 0 0 \<lparr>lastWrite = 0, writeDelay = 0, lastPing = 0, lastPong = 0, rlocks = 0\<rparr>)
   = ([], Blocked, \<lparr>lastWrite = 0, writeDelay = 0, lastPing = 0, lastPong = 0, rlocks = 1\<rparr>)"
  by (simp add: pingTick_def pingLoop_init_def Let_def Sub_def wrap64_def Second_def
      maxDuration_def minDuration_def)

lemma exec_returns:
  "wg c = 0 \<Longrightarrow> panicked c command ev = [] \<Longrightarrow> exec c r command ev = (Completed, c)"
  by (simp add: exec_def)


lemma exec_recovered:
  "panicked c command ev \<noteq> [] \<Longrightarrow>
   exec c True command ev = (Hung, c\<lparr>wg := wg c + length (panicked c command ev)\<rparr>)"
  by (simp add: exec_def Let_def)

lemma exec_unbalanced:
  "0 < wg c \<Longrightarrow> panicked c command ev = [] \<Longrightarrow> exec c r command ev = (Hung, c)"
  by (simp add: exec_def)

lemma exec_Completed_same:
  "fst (exec c r command ev) = Completed \<Longrightarrow> snd (exec c r command ev) = c"
  by (auto simp: exec_def Let_def split: if_splits)


lemma RunHandlers_all_return:
  assumes "wg (Handlers c) = 0"
    and "panicked (Handlers c) (ALLEVENTS K) ev = []"
    and "panicked (Handlers c) (Command ev) ev = []"
  shows "RunHandlers K decodeCTCP c (Some ev) =
     ([Exec (ALLEVENTS K) ev, Exec (Command ev) ev]
        @ (case decodeCTCP ev of None \<Rightarrow> [] | Some ctcp \<Rightarrow> [CallCTCP ctcp]),
      Completed, c)"
  using assms
  by (simp add: RunHandlers_def exec_returns split: option.splits)





lemma RunHandlers_recovered_panic:
  assumes "RecoverFunc (Config c)" and "panicked (Handlers c) (ALLEVENTS K) ev \<noteq> []"
  shows "RunHandlers K decodeCTCP c (Some ev) =
           ([Exec (ALLEVENTS K) ev], Hung,
            c\<lparr>Handlers := (Handlers c)\<lparr>wg := wg (Handlers c) + length (panicked (Handlers c) (ALLEVENTS K) ev)\<rparr>\<rparr>)"
  using assms by (simp add: RunHandlers_def exec_recovered)

lemma RunHandlers_unbalanced:
  assumes "0 < wg (Handlers c)" and "panicked (Handlers c) (ALLEVENTS K) ev = []"
  shows "RunHandlers K decodeCTCP c (Some ev) = ([Exec (ALLEVENTS K) ev], Hung, c)"
  using assms by (simp add: RunHandlers_def exec_unbalanced)

lemma RunHandlers_Completed_same:
  assumes "fst (snd (RunHandlers K decodeCTCP c event)) = Completed"
  shows "snd (snd (RunHandlers K decodeCTCP c event)) = c"
proof (cases event)
  case None
  then show ?thesis by (simp add: RunHandlers_def)
next
  case (Some ev)
  let ?e1 = "exec (Handlers c) (RecoverFunc (Config c)) (ALLEVENTS K) ev"
  let ?e2 = "exec (Handlers c) (RecoverFunc (Config c)) (Command ev) ev"
  from assms Some have r1: "fst ?e1 = Completed"
    by (auto simp: RunHandlers_def Let_def split_def split: exec_result.splits)
  then have s1: "snd ?e1 = Handlers c" by (rule exec_Completed_same)
  from assms Some r1 s1 have r2: "fst ?e2 = Completed"
    by (auto simp: RunHandlers_def Let_def split_def split: exec_result.splits)
  then have s2: "snd ?e2 = Handlers c" by (rule exec_Completed_same)
  from Some r1 s1 r2 s2 show ?thesis
    by (simp add: RunHandlers_def Let_def split_def split: option.splits)
qed




lemma Connect_failure:
  "Connect K decodeCTCP effect capRequest server (Inl err) errs c = (c, ReturnedError err)"
  by (simp add: Connect_def)

lemma Connect_success:
  assumes "fst (snd (RunHandlers K decodeCTCP c
             (Some \<lparr>Command = INITIALIZED K, Params = [], Trailing = server, Sensitive = False\<rparr>))) = Completed"
    and "effect (Config c) = Config c"
  shows "Connect K decodeCTCP effect capRequest server (Inr conn) errs c =
     (c\<lparr>Config := (Config c)\<lparr>Name := (if Name (Config c) = '''' then User (Config c) else Name (Config c))\<rparr>,
        tx := tx c
            @ (if Password (Config c) \<noteq> ''''
               then [\<lparr>Command = PASS K, Params = [Password (Config c)], Trailing = '''', Sensitive = False\<rparr>]
               else [])
            @ [\<lparr>Command = NICK K, Params = [Nick (Config c)], Trailing = '''', Sensitive = False\<rparr>,
               \<lparr>Command = USER K, Params = [User (Config c), ''+iw'', ''*''],
                 Trailing = (if Name (Config c) = '''' then User (Config c) else Name (Config c)),
                 Sensitive = False\<rparr>,
               capRequest]\<rparr>,
      (case errs of None \<Rightarrow> NeverReturns | Some err \<Rightarrow> ReturnedError err))"
  using assms RunHandlers_Completed_same [OF assms(1)]
  by (simp add: Connect_def Let_def split_def write_ev_def listCAP_def)

text \<open>
  Claim C10, as amended. When \<open>newConn\<close> fails, \<open>Connect\<close> returns its error and
  leaves the client as it was. When \<open>newConn\<close> succeeds and the handlers of the
  \<open>INITIALIZED\<close> event complete without writing the configuration, \<open>Connect\<close>
  leaves a configuration that differs from the one it was called with at most in
  \<open>Name\<close>: an empty \<open>Name\<close> has become \<open>User\<close>, a non-empty one is unchanged. The
  \<open>USER\<close> message is enqueued after that and carries the new \<open>Name\<close>.
\<close>

theorem Connect_sets_Name:
  "Connect K decodeCTCP effect capRequest server (Inl err) errs c = (c, ReturnedError err)
   \<and> (fst (snd (RunHandlers K decodeCTCP c
          (Some \<lparr>Command = INITIALIZED K, Params = [], Trailing = server, Sensitive = False\<rparr>))) = Completed
        \<and> effect (Config c) = Config c \<longrightarrow>
      Config (fst (Connect K decodeCTCP effect capRequest server (Inr conn) errs c))
        = (Config c)\<lparr>Name := (if Name (Config c) = '''' then User (Config c) else Name (Config c))\<rparr>
      \<and> tx (fst (Connect K decodeCTCP effect capRequest server (Inr conn) errs c))
        = tx c
            @ (if Password (Config c) \<noteq> ''''
               then [\<lparr>Command = PASS K, Params = [Password (Config c)], Trailing = '''', Sensitive = False\<rparr>]
               else [])
            @ [\<lparr>Command = NICK K, Params = [Nick (Config c)], Trailing = '''', Sensitive = False\<rparr>,
               \<lparr>Command = USER K, Params = [User (Config c), ''+iw'', ''*''],
                 Trailing = Name (Config (fst (Connect K decodeCTCP effect capRequest server (Inr conn) errs c))),
                 Sensitive = False\<rparr>,
               capRequest]
      \<and> Handlers (fst (Connect K decodeCTCP effect capRequest server (Inr conn) errs c)) = Handlers c)"
proof (intro conjI impI)
  show "Connect K decodeCTCP effect capRequest server (Inl err) errs c = (c, ReturnedError err)"
    by (rule Connect_failure)
next
  assume h: "fst (snd (RunHandlers K decodeCTCP c
          (Some \<lparr>Command = INITIALIZED K, Params = [], Trailing = server, Sensitive = False\<rparr>))) = Completed
        \<and> effect (Config c) = Config c"
  note s = Connect_success [where K = K and decodeCTCP = decodeCTCP and c = c and server = server
      and effect = effect and capRequest = capRequest and conn = conn and errs = errs,
      OF conjunct1 [OF h] conjunct2 [OF h]]
  show "Config (fst (Connect K decodeCTCP effect capRequest server (Inr conn) errs c))
        = (Config c)\<lparr>Name := (if Name (Config c) = '''' then User (Config c) else Name (Config c))\<rparr>"
    unfolding s by simp
  show "tx (fst (Connect K decodeCTCP effect capRequest server (Inr conn) errs c))
        = tx c
            @ (if Password (Config c) \<noteq> ''''
               then [\<lparr>Command = PASS K, Params = [Password (Config c)], Trailing = '''', Sensitive = False\<rparr>]
               else [])
            @ [\<lparr>Command = NICK K, Params = [Nick (Config c)], Trailing = '''', Sensitive = False\<rparr>,
               \<lparr>Command = USER K, Params = [User (Config c), ''+iw'', ''*''],
                 Trailing = Name (Config (fst (Connect K decodeCTCP effect capRequest server (Inr conn) errs c))),
                 Sensitive = False\<rparr>,
               capRequest]"
    unfolding s by simp
  show "Handlers (fst (Connect K decodeCTCP effect capRequest server (Inr conn) errs c)) = Handlers c"
    unfolding s by simp
qed

theorem Connect_sets_Name_witness:
  "Config (fst (Connect
       \<lparr>ALLEVENTS = ''*'', INITIALIZED = ''CLIENT_INIT'', PASS = ''PASS'', NICK = ''NICK'', USER = ''USER''\<rparr>
       no_ctcp id
       \<lparr>Command = ''CAP'', Params = [''LS'', ''302''], Trailing = '''', Sensitive = False\<rparr>
       ''irc.example.net:6667'' (Inr ()) (Some ErrTimedOut)
       \<lparr>Config = \<lparr>Password = '''', Nick = ''nick'', User = ''user'', Name = '''', RecoverFunc = False\<rparr>,
        Handlers = newCaller, tx = []\<rparr>))
   = \<lparr>Password = '''', Nick = ''nick'', User = ''user'', Name = ''user'', RecoverFunc = False\<rparr>"
proof -
  let ?K = "\<lparr>ALLEVENTS = ''*'', INITIALIZED = ''CLIENT_INIT'', PASS = ''PASS'', NICK = ''NICK'', USER = ''USER''\<rparr>"
  let ?c = "\<lparr>Config = \<lparr>Password = '''', Nick = ''nick'', User = ''user'', Name = '''', RecoverFunc = False\<rparr>,
        Handlers = newCaller, tx = []\<rparr>"
  have s: "panicked (newCaller :: Handler Caller) command ev = []" for command ev
    by (simp add: panicked_def exec_stack_def handlers_of_def newCaller_def)
  have w: "wg (newCaller :: Handler Caller) = 0"
    by (simp add: newCaller_def)
  have h: "fst (snd (RunHandlers ?K no_ctcp ?c
             (Some \<lparr>Command = INITIALIZED ?K, Params = [], Trailing = ''irc.example.net:6667'', Sensitive = False\<rparr>)))
           = Completed"
    by (simp add: RunHandlers_all_return s w)
  have e: "id (Config ?c) = Config ?c" by simp
  from Connect_sets_Name [where K = ?K and decodeCTCP = no_ctcp and effect = id and c = ?c
      and server = "''irc.example.net:6667''" and conn = "()" and errs = "Some ErrTimedOut"
      and capRequest = "\<lparr>Command = ''CAP'', Params = [''LS'', ''302''], Trailing = '''', Sensitive = False\<rparr>"]
    h e
  show ?thesis by simp
qed

text \<open>
  Claim C10 as stated fails when \<open>newConn\<close> fails: \<open>Connect\<close> returns the error
  before it reaches the assignment, and the empty \<open>Name\<close> stays empty.
\<close>

theorem Connect_dial_failure_counterexample:
  "Connect
       \<lparr>ALLEVENTS = ''*'', INITIALIZED = ''CLIENT_INIT'', PASS = ''PASS'', NICK = ''NICK'', USER = ''USER''\<rparr>
       no_ctcp id
       \<lparr>Command = ''CAP'', Params = [''LS'', ''302''], Trailing = '''', Sensitive = False\<rparr>
       ''irc.example.net:6667'' (Inl (ConnectError ''connection refused'')) None
       \<lparr>Config = \<lparr>Password = '''', Nick = ''nick'', User = ''user'', Name = '''', RecoverFunc = False\<rparr>,
        Handlers = newCaller, tx = []\<rparr>
   = (\<lparr>Config = \<lparr>Password = '''', Nick = ''nick'', User = ''user'', Name = '''', RecoverFunc = False\<rparr>,
        Handlers = newCaller, tx = []\<rparr>,
      ReturnedError (ConnectError ''connection refused''))"
  by (simp add: Connect_def)

end
